theory Spec2Isabelle
  imports Main
begin

section \<open>Python values used by build\_emoji\_data.py\<close>

text \<open>
  A Python \<open>str\<close> is a sequence of Unicode code points, so it is modelled as a list of
  natural numbers; \<open>str\<close> turns an ASCII literal into such a list. The built-ins
  \<open>int(_, 16)\<close> and \<open>str.lower\<close> are modelled on ASCII text: a code point above
  126 is never a digit or a blank of a numeral, and \<open>lower\<close> leaves code points
  outside \<open>A\<close>..\<open>Z\<close> as they are; a property that depends on what these built-ins
  do beyond ASCII is stated for ASCII text (\<open>is_ascii\<close>). Fields of a JSON object that
  may be absent are options; a field that is present has the type that the data format
  gives it.
\<close>

type_synonym pystr = "nat list"

definition str :: "string \<Rightarrow> pystr" where
  "str s = map of_char s"

datatype py_error = ValueError | OverflowError

definition dict_get :: "'a option \<Rightarrow> 'a \<Rightarrow> 'a" where
  \<comment> \<open>\<open>d.get(key, default)\<close>, applied to the looked-up field\<close>
  "dict_get field dflt = (case field of None \<Rightarrow> dflt | Some v \<Rightarrow> v)"

subsection \<open>String methods\<close>

definition lower_char :: "nat \<Rightarrow> nat" where
  "lower_char c = (if 65 \<le> c \<and> c \<le> 90 then c + 32 else c)"

definition py_lower :: "pystr \<Rightarrow> pystr" where
  "py_lower s = map lower_char s"

definition py_replace :: "nat \<Rightarrow> nat \<Rightarrow> pystr \<Rightarrow> pystr" where
  \<comment> \<open>\<open>s.replace(old, new)\<close> for one-character \<open>old\<close> and \<open>new\<close>\<close>
  "py_replace old new s = map (\<lambda>c. if c = old then new else c) s"

definition py_startswith :: "pystr \<Rightarrow> pystr \<Rightarrow> bool" where
  "py_startswith s p = (take (length p) s = p)"

fun py_in :: "pystr \<Rightarrow> pystr \<Rightarrow> bool" where
  \<comment> \<open>\<open>sub in s\<close>: \<open>sub\<close> occurs in \<open>s\<close> as a contiguous substring\<close>
  "py_in sub [] = (sub = [])"
| "py_in sub (c # s) = (py_startswith (c # s) sub \<or> py_in sub s)"

fun py_split :: "nat \<Rightarrow> pystr \<Rightarrow> pystr list" where
  \<comment> \<open>\<open>s.split(sep)\<close> for a one-character separator\<close>
  "py_split sep [] = [] # []"
| "py_split sep (c # s) =
     (if c = sep then [] # py_split sep s
      else (case py_split sep s of
              [] \<Rightarrow> [c] # []
            | w # ws \<Rightarrow> (c # w) # ws))"

subsection \<open>\<open>int(cp, 16)\<close> and \<open>chr\<close>\<close>

definition Py_ISSPACE :: "nat \<Rightarrow> bool" where
  "Py_ISSPACE c = (c = 32 \<or> (9 \<le> c \<and> c \<le> 13))"

definition digit_value :: "nat \<Rightarrow> nat" where
  \<comment> \<open>the interpreter's digit table: 37 marks a character that is no digit in any base\<close>
  "digit_value c =
     (if 48 \<le> c \<and> c \<le> 57 then c - 48
      else if 97 \<le> c \<and> c \<le> 122 then c - 87
      else if 65 \<le> c \<and> c \<le> 90 then c - 55
      else 37)"

definition strip_sign :: "pystr \<Rightarrow> int \<times> pystr" where
  "strip_sign s =
     (case s of
        [] \<Rightarrow> (1, [])
      | c # r \<Rightarrow> if c = 43 then (1, r) else if c = 45 then (- 1, r) else (1, s))"

definition strip_prefix16 :: "pystr \<Rightarrow> pystr" where
  \<comment> \<open>an optional \<open>0x\<close> or \<open>0X\<close>, and one underscore after it\<close>
  "strip_prefix16 s =
     (case s of
        c0 # c1 # r \<Rightarrow>
          if c0 = 48 \<and> (c1 = 120 \<or> c1 = 88)
          then (case r of [] \<Rightarrow> r | u # r' \<Rightarrow> if u = 95 then r' else r)
          else s
      | _ \<Rightarrow> s)"

definition digit_or_underscore :: "nat \<Rightarrow> bool" where
  "digit_or_underscore c = (digit_value c < 16 \<or> c = 95)"

fun underscores_ok :: "pystr \<Rightarrow> bool" where
  \<comment> \<open>no two underscores in a row and none at the end\<close>
  "underscores_ok [] = True"
| "underscores_ok [c] = (c \<noteq> 95)"
| "underscores_ok (c # d # r) = (\<not> (c = 95 \<and> d = 95) \<and> underscores_ok (d # r))"

definition py_int16 :: "pystr \<Rightarrow> py_error + int" where
  "py_int16 s =
     (let signed = strip_sign (dropWhile Py_ISSPACE s);
          body = strip_prefix16 (snd signed);
          run = takeWhile digit_or_underscore body;
          rest = dropWhile digit_or_underscore body;
          digits = filter (\<lambda>c. c \<noteq> 95) run
      in if py_startswith body [95] \<or> \<not> underscores_ok run \<or> digits = []
            \<or> dropWhile Py_ISSPACE rest \<noteq> []
         then Inl ValueError
         else Inr (fst signed * int (foldl (\<lambda>v c. 16 * v + digit_value c) 0 digits)))"

definition py_chr :: "int \<Rightarrow> py_error + pystr" where
  \<comment> \<open>the argument is converted to a C int first, then checked against the code-point range\<close>
  "py_chr i =
     (if i < - (2 ^ 31) \<or> 2 ^ 31 \<le> i then Inl OverflowError
      else if i < 0 \<or> 0x110000 \<le> i then Inl ValueError
      else Inr [nat i])"

section \<open>The codepoint decoder\<close>

fun chars_of :: "pystr list \<Rightarrow> py_error + pystr list" where
  \<comment> \<open>\<open>[chr(int(cp, 16)) for cp in codepoints]\<close>: the first failure is raised\<close>
  "chars_of [] = Inr []"
| "chars_of (cp # codepoints) =
     (case py_int16 cp of
        Inl e \<Rightarrow> Inl e
      | Inr i \<Rightarrow>
          (case py_chr i of
             Inl e \<Rightarrow> Inl e
           | Inr ch \<Rightarrow>
               (case chars_of codepoints of
                  Inl e \<Rightarrow> Inl e
                | Inr chars \<Rightarrow> Inr (ch # chars))))"

definition hex_to_emoji :: "pystr \<Rightarrow> py_error + pystr" where
  "hex_to_emoji unified =
     (let codepoints = py_split 45 unified
      in case chars_of codepoints of
           Inl e \<Rightarrow> Inl e
         | Inr chars \<Rightarrow> Inr (concat chars))"

section \<open>The pipeline\<close>

record entry =
  e_has_img_apple :: "bool option"
  e_unified :: "pystr option"
  e_short_names :: "pystr list option"
  e_name :: "pystr option"
  e_category :: "pystr option"
  e_sort_order :: "int option"

record emoji_entry =
  emoji :: pystr
  name :: pystr
  keywords_list :: "pystr list"
  category :: pystr
  sortOrder :: int

definition skin_tone_modifiers :: "pystr list" where
  "skin_tone_modifiers =
     [str ''1F3FB'', str ''1F3FC'', str ''1F3FD'', str ''1F3FE'', str ''1F3FF'']"

definition has_skin_tone_modifier :: "pystr \<Rightarrow> bool" where
  \<comment> \<open>\<open>any(mod in unified for mod in [...])\<close>\<close>
  "has_skin_tone_modifier unified = list_ex (\<lambda>m. py_in m unified) skin_tone_modifiers"

definition kw_clean :: "pystr \<Rightarrow> pystr" where
  "kw_clean kw = py_replace 95 32 (py_lower kw)"

fun add_short_name :: "pystr \<Rightarrow> pystr list \<times> pystr set \<Rightarrow> pystr list \<times> pystr set" where
  "add_short_name kw (all_keywords, seen_keywords) =
     (if kw_clean kw \<notin> seen_keywords
      then (all_keywords @ [kw_clean kw], insert (kw_clean kw) seen_keywords)
      else (all_keywords, seen_keywords))"

fun add_emojilib_keyword :: "pystr \<Rightarrow> pystr list \<times> pystr set \<Rightarrow> pystr list \<times> pystr set" where
  "add_emojilib_keyword kw (all_keywords, seen_keywords) =
     (if kw_clean kw \<notin> seen_keywords \<and> \<not> py_startswith kw (str '':'')
         \<and> \<not> py_startswith kw (str '';'')
      then (all_keywords @ [kw_clean kw], insert (kw_clean kw) seen_keywords)
      else (all_keywords, seen_keywords))"

definition merge_keywords :: "pystr list \<Rightarrow> pystr list \<Rightarrow> pystr list" where
  \<comment> \<open>the two keyword loops of the pipeline, run on \<open>all_keywords = []\<close>, \<open>seen_keywords = set()\<close>\<close>
  "merge_keywords short_names emojilib_keywords =
     fst (fold add_emojilib_keyword
            (if length emojilib_keywords > 1 then drop 1 emojilib_keywords else [])
            (fold add_short_name short_names ([], {})))"

fun loop_body ::
  "(pystr \<rightharpoonup> pystr list) \<Rightarrow> entry \<Rightarrow> emoji_entry list \<times> pystr set
     \<Rightarrow> emoji_entry list \<times> pystr set" where
  "loop_body emojilib_data entry (emojis, seen_emojis) =
     (if \<not> dict_get (e_has_img_apple entry) False then (emojis, seen_emojis)
      else
        let unified = dict_get (e_unified entry) [] in
        if has_skin_tone_modifier unified then (emojis, seen_emojis)
        else
          (case hex_to_emoji unified of
             Inl ValueError \<Rightarrow> (emojis, seen_emojis)
           | Inl OverflowError \<Rightarrow> (emojis, seen_emojis)
           | Inr emoji_char \<Rightarrow>
               if emoji_char \<in> seen_emojis then (emojis, seen_emojis)
               else
                 let short_names = dict_get (e_short_names entry) [];
                     emojilib_keywords = dict_get (emojilib_data emoji_char) [];
                     all_keywords = merge_keywords short_names emojilib_keywords;
                     emoji_entry =
                       \<lparr>emoji = emoji_char,
                        name = py_lower (dict_get (e_name entry) []),
                        keywords_list = all_keywords,
                        category = dict_get (e_category entry) (str ''Other''),
                        sortOrder = dict_get (e_sort_order entry) 9999\<rparr>
                 in (emojis @ [emoji_entry], insert emoji_char seen_emojis)))"

definition build_emoji_list :: "entry list \<Rightarrow> (pystr \<rightharpoonup> pystr list) \<Rightarrow> emoji_entry list" where
  "build_emoji_list raw_data emojilib_data =
     fst (fold (loop_body emojilib_data) raw_data ([], {}))"

subsection \<open>One record in the loop\<close>

definition eligible_glyph :: "entry \<Rightarrow> pystr option" where
  \<comment> \<open>the tests that \<open>loop_body\<close> makes on a record before it looks at \<open>seen_emojis\<close>:
      the glyph that the loop goes on with, or \<open>None\<close> when one of them skips the record\<close>
  "eligible_glyph r =
     (if dict_get (e_has_img_apple r) False
         \<and> \<not> has_skin_tone_modifier (dict_get (e_unified r) [])
      then (case hex_to_emoji (dict_get (e_unified r) []) of
              Inl e \<Rightarrow> None
            | Inr g \<Rightarrow> Some g)
      else None)"

definition is_ascii :: "pystr \<Rightarrow> bool" where
  \<comment> \<open>\<open>s.isascii()\<close>: the text on which the models of \<open>int\<close> and \<open>lower\<close> are exact\<close>
  "is_ascii s = list_all (\<lambda>c. c < 128) s"

definition ascii_unified :: "entry \<Rightarrow> bool" where
  "ascii_unified r = is_ascii (dict_get (e_unified r) [])"

section \<open>Notions of the specification\<close>

text \<open>
  The definitions of this section do not come from the script. They say in the
  specification's words what the properties below compare the script with.
\<close>

fun dedup :: "'a list \<Rightarrow> 'a list" where
  \<comment> \<open>keep the first occurrence of every element, in order\<close>
  "dedup [] = []"
| "dedup (x # xs) = x # dedup (filter (\<lambda>y. y \<noteq> x) xs)"

definition emoticon :: "pystr \<Rightarrow> bool" where
  \<comment> \<open>a text-emoticon alias: it starts with a colon or a semicolon\<close>
  "emoticon kw = (py_startswith kw (str '':'') \<or> py_startswith kw (str '';''))"

definition spec_merge_keywords :: "pystr list \<Rightarrow> pystr list \<Rightarrow> pystr list" where
  \<comment> \<open>section 4.3: normalised short names, then the normalised secondary entries but the
      first, without emoticon aliases; every keyword once, at its first place\<close>
  "spec_merge_keywords short_names entries =
     dedup (map kw_clean short_names
            @ filter (\<lambda>kw. \<not> emoticon kw)
                (map kw_clean (if length entries > 1 then tl entries else [])))"

definition hex_digit :: "nat \<Rightarrow> bool" where
  "hex_digit c = ((48 \<le> c \<and> c \<le> 57) \<or> (65 \<le> c \<and> c \<le> 70) \<or> (97 \<le> c \<and> c \<le> 102))"

definition upper_hex_digit :: "nat \<Rightarrow> bool" where
  "upper_hex_digit c = ((48 \<le> c \<and> c \<le> 57) \<or> (65 \<le> c \<and> c \<le> 70))"

definition hex_value :: "pystr \<Rightarrow> nat" where
  \<comment> \<open>the number that a string of hexadecimal digits denotes\<close>
  "hex_value s = foldl (\<lambda>v c. 16 * v + digit_value c) 0 s"

definition bad_segment :: "pystr \<Rightarrow> bool" where
  \<comment> \<open>section 4.1: the segment is no hexadecimal integer, or lies outside the code-point range\<close>
  "bad_segment seg =
     (case py_int16 seg of
        Inl e \<Rightarrow> True
      | Inr v \<Rightarrow> v < 0 \<or> 0x10FFFF < v)"

definition modifier_codepoint_segment :: "pystr \<Rightarrow> bool" where
  \<comment> \<open>the segment denotes one of the code points 1F3FB .. 1F3FF\<close>
  "modifier_codepoint_segment seg =
     (case py_int16 seg of
        Inl e \<Rightarrow> False
      | Inr v \<Rightarrow> 0x1F3FB \<le> v \<and> v \<le> 0x1F3FF)"

definition spec_has_modifier_codepoint :: "pystr \<Rightarrow> bool" where
  \<comment> \<open>section 4.2: the codepoint sequence contains a skin-tone modifier codepoint\<close>
  "spec_has_modifier_codepoint unified =
     list_ex modifier_codepoint_segment (py_split 45 unified)"

definition spec_eligible_glyph :: "entry \<Rightarrow> pystr option" where
  \<comment> \<open>section 4.2 without the duplicate test: the glyph of a record that is rendered, has
      no skin-tone modifier code point in its sequence and decodes\<close>
  "spec_eligible_glyph r =
     (if dict_get (e_has_img_apple r) False
         \<and> \<not> spec_has_modifier_codepoint (dict_get (e_unified r) [])
      then (case hex_to_emoji (dict_get (e_unified r) []) of
              Inl e \<Rightarrow> None
            | Inr g \<Rightarrow> Some g)
      else None)"

definition spec_glyph_order :: "entry list \<Rightarrow> pystr list" where
  \<comment> \<open>the glyphs of the eligible records in input order, each at its first occurrence\<close>
  "spec_glyph_order raw_data = dedup (List.map_filter spec_eligible_glyph raw_data)"

definition upstream_segment :: "pystr \<Rightarrow> bool" where
  \<comment> \<open>the notation of the primary source: upper-case hexadecimal digits of a code point,
      padded with zeros to four digits\<close>
  "upstream_segment seg =
     (list_all upper_hex_digit seg \<and> 4 \<le> length seg \<and> length seg \<le> 6
      \<and> (if 4 < length seg then hd seg \<noteq> 48 else True)
      \<and> hex_value seg \<le> 0x10FFFF)"

definition hex_char :: "nat \<Rightarrow> nat" where
  \<comment> \<open>the upper-case hexadecimal digit for a value below 16\<close>
  "hex_char d = (if d < 10 then 48 + d else 55 + d)"

fun hex_of :: "nat \<Rightarrow> pystr" where
  \<comment> \<open>the hexadecimal numeral of a number, most significant digit first\<close>
  "hex_of n = (if n < 16 then [hex_char n] else hex_of (n div 16) @ [hex_char (n mod 16)])"

subsection \<open>Example data\<close>

definition grinning :: entry where
  "grinning =
     \<lparr>e_has_img_apple = Some True, e_unified = Some (str ''1F600''),
      e_short_names = Some [str ''grinning''], e_name = Some (str ''GRINNING FACE''),
      e_category = Some (str ''Smileys & Emotion''), e_sort_order = Some 1\<rparr>"

definition grinning_keywords :: "pystr \<rightharpoonup> pystr list" where
  "grinning_keywords =
     Map.empty([0x1F600] \<mapsto> [str ''grinning_face'', str ''happy'', str ''joy''])"

definition grinning_out :: emoji_entry where
  "grinning_out =
     \<lparr>emoji = [0x1F600], name = str ''grinning face'',
      keywords_list = [str ''grinning'', str ''happy'', str ''joy''],
      category = str ''Smileys & Emotion'', sortOrder = 1\<rparr>"

definition bare :: "pystr \<Rightarrow> entry" where
  \<comment> \<open>a rendered record that has nothing but its \<open>unified\<close> field\<close>
  "bare u =
     \<lparr>e_has_img_apple = Some True, e_unified = Some u, e_short_names = None,
      e_name = None, e_category = None, e_sort_order = None\<rparr>"

definition thumbs_up_entries :: "pystr list" where
  "thumbs_up_entries =
     [str ''thumbs up sign'', str ''like'', str ''thumbs_up'', str ''approve'']"

definition flag_us :: entry where
  \<comment> \<open>a flag: two regional indicators, given out of rank order and without a category\<close>
  "flag_us =
     \<lparr>e_has_img_apple = Some True, e_unified = Some (str ''1F1FA-1F1F8''),
      e_short_names = Some [str ''us'', str ''flag-us''], e_name = Some (str ''United States Flag''),
      e_category = None, e_sort_order = Some 0\<rparr>"

definition glyph_grinning :: pystr where
  "glyph_grinning = [0x1F600]"

definition glyph_flag_us :: pystr where
  "glyph_flag_us = [0x1F1FA, 0x1F1F8]"

definition thumb_light :: entry where
  \<comment> \<open>a skin-tone variation whose modifier is written in lower-case hexadecimal digits\<close>
  "thumb_light = bare (str ''1F44D-1f3fb'')"

definition thumb_light_out :: emoji_entry where
  "thumb_light_out =
     \<lparr>emoji = [0x1F44D, 0x1F3FB], name = [], keywords_list = [],
      category = str ''Other'', sortOrder = 9999\<rparr>"

definition face_entries :: "pystr list" where
  "face_entries = [str ''grinning_face'', str '':D'', str ''Like'', str ''thumbs_up'']"

section \<open>Auxiliary facts\<close>

subsection \<open>The main loop\<close>

lemmas eval_defs = loop_body.simps build_emoji_list_def dict_get_def has_skin_tone_modifier_def skin_tone_modifiers_def
     str_def py_startswith_def hex_to_emoji_def py_int16_def strip_sign_def strip_prefix16_def Py_ISSPACE_def
     digit_or_underscore_def digit_value_def py_chr_def merge_keywords_def kw_clean_def py_lower_def py_replace_def lower_char_def

lemma body_cases:
  "loop_body lib r (acc, seen) =
     (case eligible_glyph r of
        None \<Rightarrow> (acc, seen)
      | Some g \<Rightarrow>
          if g \<in> seen then (acc, seen)
          else (acc @ [\<lparr>emoji = g, name = py_lower (dict_get (e_name r) []),
                        keywords_list = merge_keywords (dict_get (e_short_names r) []) (dict_get (lib g) []),
                        category = dict_get (e_category r) (str ''Other''),
                        sortOrder = dict_get (e_sort_order r) 9999\<rparr>], insert g seen))"
  by (simp add: eligible_glyph_def Let_def split: sum.splits py_error.splits)

declare loop_body.simps [simp del]

lemma filter_not_in_insert:
  "filter (\<lambda>y. y \<noteq> g) (filter (\<lambda>y. y \<notin> S) xs) = filter (\<lambda>y. y \<notin> insert g S) xs"
  by (induction xs) auto

lemma fold_glyphs:
  "map emoji (fst (fold (loop_body lib) rs (acc, seen)))
     = map emoji acc @ dedup (filter (\<lambda>g. g \<notin> seen) (List.map_filter eligible_glyph rs))"
proof (induction rs arbitrary: acc seen)
  case Nil
  show ?case by simp
next
  case (Cons r rs)
  show ?case
  proof (cases "eligible_glyph r")
    case None
    then show ?thesis using Cons.IH by (simp add: body_cases)
  next
    case (Some g)
    then show ?thesis using Cons.IH
      by (simp add: body_cases filter_not_in_insert conj_commute)
  qed
qed

lemma set_dedup: "set (dedup xs) = set xs"
  by (induction xs rule: dedup.induct) auto

lemma distinct_dedup: "distinct (dedup xs)"
  by (induction xs rule: dedup.induct) (auto simp: set_dedup)

lemma build_glyphs: "map emoji (build_emoji_list raw lib) = dedup (List.map_filter eligible_glyph raw)"
  by (simp add: build_emoji_list_def fold_glyphs)


lemma body_skip: "eligible_glyph r = None \<Longrightarrow> loop_body lib r s = s"
  by (cases s) (simp add: body_cases)

lemma skip_build:
  "eligible_glyph r = None \<Longrightarrow>
     build_emoji_list (pre @ r # post) lib = build_emoji_list (pre @ post) lib"
  by (simp add: build_emoji_list_def body_skip)

lemma body_seen: "eligible_glyph r = Some g \<Longrightarrow> g \<in> snd (loop_body lib r s)"
  by (cases s) (simp add: body_cases)

lemma body_mono: "g \<in> snd s \<Longrightarrow> g \<in> snd (loop_body lib r s)"
  by (cases s) (simp add: body_cases split: option.splits)

lemma fold_mono: "g \<in> snd s \<Longrightarrow> g \<in> snd (fold (loop_body lib) rs s)"
  by (induction rs arbitrary: s) (simp_all add: body_mono)

lemma body_dup: "eligible_glyph r = Some g \<Longrightarrow> g \<in> snd s \<Longrightarrow> loop_body lib r s = s"
  by (cases s) (simp add: body_cases)

lemma dup_build:
  assumes "eligible_glyph r1 = Some g" and "eligible_glyph r2 = Some g"
  shows "build_emoji_list (pre @ r1 # mid @ r2 # post) lib
           = build_emoji_list (pre @ r1 # mid @ post) lib"
proof -
  let ?s = "fold (loop_body lib) mid (loop_body lib r1 (fold (loop_body lib) pre ([], {})))"
  have "g \<in> snd ?s" using assms(1) by (intro fold_mono body_seen)
  then have "loop_body lib r2 ?s = ?s" using assms(2) by (rule body_dup[rotated])
  then show ?thesis by (simp add: build_emoji_list_def)
qed

lemma build_snoc:
  "build_emoji_list (pre @ [r]) lib
     = fst (loop_body lib r (fold (loop_body lib) pre ([], {})))"
  by (simp add: build_emoji_list_def)

lemma produced_entry:
  assumes "build_emoji_list (pre @ [r]) lib \<noteq> build_emoji_list pre lib"
  shows "\<exists>g. eligible_glyph r = Some g \<and> build_emoji_list (pre @ [r]) lib = build_emoji_list pre lib @
           [\<lparr>emoji = g, name = py_lower (dict_get (e_name r) []),
             keywords_list = merge_keywords (dict_get (e_short_names r) []) (dict_get (lib g) []),
             category = dict_get (e_category r) (str ''Other''),
             sortOrder = dict_get (e_sort_order r) 9999\<rparr>]"
proof -
  obtain acc seen where st: "fold (loop_body lib) pre ([], {}) = (acc, seen)"
    by (cases "fold (loop_body lib) pre ([], {})")
  have pre: "build_emoji_list pre lib = acc" by (simp add: build_emoji_list_def st)
  show ?thesis using assms unfolding build_snoc pre st
    by (auto simp: body_cases split: option.splits if_splits)
qed

lemma chars_of_length:
  "chars_of cps = Inr chars \<Longrightarrow> length chars = length cps \<and> (\<forall>ch \<in> set chars. length ch = 1)"
proof (induction cps arbitrary: chars)
  case Nil
  then show ?case by simp
next
  case (Cons cp cps)
  then show ?case
    by (auto simp: py_chr_def split: sum.splits if_splits)
qed

lemma py_split_nonempty: "py_split sep s \<noteq> []"
  by (induction s) (auto split: list.splits)

lemma hex_to_emoji_nonempty: "hex_to_emoji u = Inr g \<Longrightarrow> g \<noteq> []"
proof -
  assume a: "hex_to_emoji u = Inr g"
  then obtain chars where c: "chars_of (py_split 45 u) = Inr chars" and g: "g = concat chars"
    by (auto simp: hex_to_emoji_def split: sum.splits)
  from chars_of_length[OF c] py_split_nonempty[of 45 u]
  obtain ch rest where "chars = ch # rest" and "length ch = 1"
    by (cases chars) auto
  then show ?thesis using g by auto
qed

lemma eligible_glyph_nonempty: "eligible_glyph r = Some g \<Longrightarrow> g \<noteq> []"
  by (auto simp: eligible_glyph_def hex_to_emoji_nonempty split: if_splits sum.splits)

lemma build_glyph_nonempty:
  assumes "x \<in> set (build_emoji_list raw lib)" shows "emoji x \<noteq> []"
proof -
  have "emoji x \<in> set (map emoji (build_emoji_list raw lib))" using assms by simp
  then have "emoji x \<in> set (List.map_filter eligible_glyph raw)"
    by (simp only: build_glyphs set_dedup)
  then obtain r where "eligible_glyph r = Some (emoji x)"
    by (auto simp: List.map_filter_def)
  then show ?thesis by (rule eligible_glyph_nonempty)
qed

lemma py_chr_fails: "isl (py_chr i) = (i < 0 \<or> 0x10FFFF < i)"
  by (auto simp: py_chr_def)

lemma py_chr_Inl: "py_chr i = Inl e \<Longrightarrow> i < 0 \<or> 0x10FFFF < i"
  by (auto simp: py_chr_def split: if_splits)

lemma py_chr_Inr: "py_chr i = Inr ch \<Longrightarrow> 0 \<le> i \<and> i \<le> 0x10FFFF"
  by (auto simp: py_chr_def split: if_splits)

lemma chars_of_Cons_fails:
  "isl (chars_of (cp # cps)) = (bad_segment cp \<or> isl (chars_of cps))"
proof (cases "py_int16 cp")
  case (Inl e)
  then show ?thesis by (simp add: bad_segment_def)
next
  case (Inr i)
  show ?thesis
  proof (cases "py_chr i")
    case (Inl e)
    with py_chr_Inl[OF Inl] Inr show ?thesis by (simp add: bad_segment_def)
  next
    case inr: (Inr ch)
    with py_chr_Inr[OF inr] Inr show ?thesis
      by (cases "chars_of cps") (simp_all add: bad_segment_def)
  qed
qed

lemma chars_of_fails: "isl (chars_of cps) = (\<exists>seg \<in> set cps. bad_segment seg)"
  by (induction cps) (simp_all add: chars_of_Cons_fails del: chars_of.simps(2))

lemma hex_to_emoji_fails:
  "isl (hex_to_emoji u) = (\<exists>seg \<in> set (py_split 45 u). bad_segment seg)"
  using chars_of_fails[of "py_split 45 u"]
  by (auto simp: hex_to_emoji_def split: sum.splits)

lemma set_map_filter: "set (List.map_filter f xs) = {y. \<exists>x \<in> set xs. f x = Some y}"
  by (induction xs) (auto simp: List.map_filter_simps split: option.splits)

lemma glyph_emitted:
  "eligible_glyph r = Some g \<Longrightarrow> g \<in> set (map emoji (build_emoji_list (pre @ r # post) lib))"
  by (simp only: build_glyphs set_dedup set_map_filter) auto

lemma fold_seen:
  "snd (fold (loop_body lib) rs (acc, seen)) = seen \<union> set (List.map_filter eligible_glyph rs)"
proof (induction rs arbitrary: acc seen)
  case Nil
  show ?case by simp
next
  case (Cons r rs)
  show ?case
  proof (cases "eligible_glyph r")
    case None
    then show ?thesis using Cons.IH by (simp add: body_cases)
  next
    case (Some g)
    then show ?thesis using Cons.IH by (auto simp: body_cases)
  qed
qed

lemma fold_prefix: "\<exists>rest. fst (fold (loop_body lib) rs (acc, seen)) = acc @ rest"
proof (induction rs arbitrary: acc seen)
  case Nil
  show ?case by simp
next
  case (Cons r rs)
  obtain acc' seen' where b: "loop_body lib r (acc, seen) = (acc', seen')"
    by (cases "loop_body lib r (acc, seen)")
  then have "acc' = acc \<or> (\<exists>x. acc' = acc @ [x])"
    by (auto simp: body_cases split: option.splits if_splits)
  moreover obtain rest where "fst (fold (loop_body lib) rs (acc', seen')) = acc' @ rest"
    using Cons.IH by blast
  ultimately show ?case using b by auto
qed

lemma first_emitted:
  assumes r: "eligible_glyph r = Some g" and first: "\<forall>p \<in> set pre. eligible_glyph p \<noteq> Some g"
  shows "\<exists>x rest. build_emoji_list (pre @ r # post) lib = build_emoji_list pre lib @ x # rest
           \<and> emoji x = g
           \<and> category x = dict_get (e_category r) (str ''Other'')
           \<and> sortOrder x = dict_get (e_sort_order r) 9999"
proof -
  obtain acc seen where st: "fold (loop_body lib) pre ([], {}) = (acc, seen)"
    by (cases "fold (loop_body lib) pre ([], {})")
  have "seen = set (List.map_filter eligible_glyph pre)"
    using fold_seen[of lib pre "[]" "{}"] st by simp
  then have new: "g \<notin> seen" using first by (auto simp: set_map_filter)
  define x where "x = \<lparr>emoji = g, name = py_lower (dict_get (e_name r) []),
      keywords_list = merge_keywords (dict_get (e_short_names r) []) (dict_get (lib g) []),
      category = dict_get (e_category r) (str ''Other''),
      sortOrder = dict_get (e_sort_order r) 9999\<rparr>"
  have step: "loop_body lib r (acc, seen) = (acc @ [x], insert g seen)"
    using r new by (simp add: body_cases x_def)
  obtain rest where "fst (fold (loop_body lib) post (acc @ [x], insert g seen)) = (acc @ [x]) @ rest"
    using fold_prefix by blast
  then have "build_emoji_list (pre @ r # post) lib = build_emoji_list pre lib @ x # rest"
    by (simp add: build_emoji_list_def st step)
  moreover have "emoji x = g" "category x = dict_get (e_category r) (str ''Other'')"
    "sortOrder x = dict_get (e_sort_order r) 9999"
    by (simp_all add: x_def)
  ultimately show ?thesis by blast
qed

lemma map_filter_agree:
  "\<forall>x \<in> set xs. f x = h x \<Longrightarrow> List.map_filter f xs = List.map_filter h xs"
  by (induction xs) (simp_all add: List.map_filter_simps split: option.splits)

lemma order_where_tests_agree:
  assumes "\<forall>r \<in> set raw_data. has_skin_tone_modifier (dict_get (e_unified r) [])
             = spec_has_modifier_codepoint (dict_get (e_unified r) [])"
  shows "map emoji (build_emoji_list raw_data lib) = spec_glyph_order raw_data"
proof -
  have "\<forall>r \<in> set raw_data. eligible_glyph r = spec_eligible_glyph r"
    using assms by (simp add: eligible_glyph_def spec_eligible_glyph_def)
  then have "List.map_filter eligible_glyph raw_data = List.map_filter spec_eligible_glyph raw_data"
    by (rule map_filter_agree)
  then show ?thesis by (simp add: build_glyphs spec_glyph_order_def)
qed

lemma undecodable_not_eligible: "isl (hex_to_emoji (dict_get (e_unified r) [])) \<Longrightarrow> eligible_glyph r = None"
  by (auto simp: eligible_glyph_def split: sum.splits)

subsection \<open>The keyword loops\<close>

lemma fold_short_names:
  "fold add_short_name xs (acc, set acc)
     = (acc @ dedup (filter (\<lambda>y. y \<notin> set acc) (map kw_clean xs)), set acc \<union> set (map kw_clean xs))"
proof (induction xs arbitrary: acc)
  case Nil
  show ?case by simp
next
  case (Cons x xs)
  show ?case
  proof (cases "kw_clean x \<in> set acc")
    case True
    then show ?thesis using Cons.IH[of acc] by auto
  next
    case False
    have "fold add_short_name (x # xs) (acc, set acc)
            = fold add_short_name xs (acc @ [kw_clean x], set (acc @ [kw_clean x]))"
      using False by simp
    also have "\<dots> = ((acc @ [kw_clean x])
          @ dedup (filter (\<lambda>y. y \<notin> set (acc @ [kw_clean x])) (map kw_clean xs)),
          set (acc @ [kw_clean x]) \<union> set (map kw_clean xs))"
      by (rule Cons.IH)
    also have "\<dots> = (acc @ dedup (filter (\<lambda>y. y \<notin> set acc) (map kw_clean (x # xs))),
          set acc \<union> set (map kw_clean (x # xs)))"
      using False filter_not_in_insert[of "kw_clean x" "set acc" "map kw_clean xs"] by simp
    finally show ?thesis .
  qed
qed

lemma fold_emojilib:
  "fold add_emojilib_keyword xs st = fold add_short_name (filter (\<lambda>kw. \<not> emoticon kw) xs) st"
proof (induction xs arbitrary: st)
  case Nil
  show ?case by simp
next
  case (Cons x xs)
  show ?case by (cases st) (simp add: Cons.IH emoticon_def)
qed

lemma kw_clean_Cons:
  "kw_clean (c # r) = (if lower_char c = 95 then 32 else lower_char c) # kw_clean r"
  by (simp add: kw_clean_def py_lower_def py_replace_def)

lemma kw_clean_Nil: "kw_clean [] = []"
  by (simp add: kw_clean_def py_lower_def py_replace_def)

lemma emoticon_kw_clean: "emoticon (kw_clean kw) = emoticon kw"
proof (cases kw)
  case Nil
  then show ?thesis by (simp add: kw_clean_Nil)
next
  case (Cons c r)
  then show ?thesis
    by (auto simp: kw_clean_Cons emoticon_def py_startswith_def str_def lower_char_def)
qed

lemma merge_keywords_eq:
  "merge_keywords short_names entries
     = dedup (map kw_clean short_names @ map kw_clean (filter (\<lambda>kw. \<not> emoticon kw) (tl entries)))"
proof -
  have tl: "(if length entries > 1 then drop 1 entries else []) = tl entries"
    by (cases entries) auto
  have "fold add_emojilib_keyword (tl entries) (fold add_short_name short_names ([], {}))
          = fold add_short_name (short_names @ filter (\<lambda>kw. \<not> emoticon kw) (tl entries)) ([], set [])"
    by (simp add: fold_emojilib)
  also have "\<dots> = ([] @ dedup (filter (\<lambda>y. y \<notin> set [])
                       (map kw_clean (short_names @ filter (\<lambda>kw. \<not> emoticon kw) (tl entries)))),
                    set [] \<union> set (map kw_clean (short_names @ filter (\<lambda>kw. \<not> emoticon kw) (tl entries))))"
    by (rule fold_short_names)
  finally show ?thesis unfolding merge_keywords_def tl by simp
qed

lemma spec_merge_keywords_eq:
  "spec_merge_keywords short_names entries
     = dedup (map kw_clean short_names @ map kw_clean (filter (\<lambda>kw. \<not> emoticon kw) (tl entries)))"
proof -
  have tl: "(if length entries > 1 then tl entries else []) = tl entries"
    by (cases entries) auto
  show ?thesis unfolding spec_merge_keywords_def tl
    by (simp add: filter_map comp_def emoticon_kw_clean)
qed

lemma upper_D_not_in_kw_clean: "68 \<notin> set (kw_clean kw)"
  by (induction kw) (auto simp: kw_clean_Nil kw_clean_Cons lower_char_def)

lemma colon_D_not_merged: "str '':D'' \<notin> set (merge_keywords short_names entries)"
proof
  assume "str '':D'' \<in> set (merge_keywords short_names entries)"
  then obtain kw where "str '':D'' = kw_clean kw"
    by (auto simp: merge_keywords_eq set_dedup)
  then have "set (kw_clean kw) = set [58, 68]" by (simp add: str_def)
  then have "68 \<in> set (kw_clean kw)" by simp
  then show False using upper_D_not_in_kw_clean by blast
qed

lemma emoticon_colon_D: "emoticon (str '':D'')"
  by (simp add: emoticon_def py_startswith_def str_def)

lemma merge_without_colon_D:
  "merge_keywords short_names (first # filter (\<lambda>kw. kw \<noteq> str '':D'') others)
     = merge_keywords short_names (first # others)"
proof -
  have "filter (\<lambda>kw. \<not> emoticon kw) (filter (\<lambda>kw. kw \<noteq> str '':D'') others)
          = filter (\<lambda>kw. \<not> emoticon kw) others"
    using emoticon_colon_D by (induction others) auto
  then show ?thesis by (simp add: merge_keywords_eq)
qed

subsection \<open>The decoder on hexadecimal digits\<close>

lemma hex_digit_value: "hex_digit c \<Longrightarrow> digit_value c < 16"
  by (auto simp: hex_digit_def digit_value_def)

lemma no_underscore_ok: "95 \<notin> set s \<Longrightarrow> underscores_ok s"
  by (induction s rule: underscores_ok.induct) auto

lemma strip_prefix16_hex: "list_all hex_digit s \<Longrightarrow> strip_prefix16 s = s"
  by (auto simp: strip_prefix16_def hex_digit_def split: list.splits)

lemma py_int16_hex:
  assumes "list_all hex_digit s" and "s \<noteq> []"
  shows "py_int16 s = Inr (int (hex_value s))"
proof -
  obtain c r where s: "s = c # r" using assms(2) by (cases s) auto
  have c: "hex_digit c" using assms(1) s by simp
  have sp: "dropWhile Py_ISSPACE s = s"
    using c by (auto simp: s Py_ISSPACE_def hex_digit_def)
  have sg: "strip_sign s = (1, s)"
    using c by (auto simp: s strip_sign_def hex_digit_def)
  have all: "\<forall>x \<in> set s. digit_or_underscore x"
    using assms(1) by (auto simp: list_all_iff digit_or_underscore_def hex_digit_value)
  have run: "takeWhile digit_or_underscore s = s" and rest: "dropWhile digit_or_underscore s = []"
    using all by simp_all
  have nu: "95 \<notin> set s"
    using assms(1) by (auto simp: list_all_iff hex_digit_def)
  then have flt: "filter (\<lambda>c. c \<noteq> 95) s = s"
    by (auto simp: filter_id_conv)
  have st: "\<not> py_startswith s [95]"
    using nu by (auto simp: s py_startswith_def)
  show ?thesis
    using assms(2) st no_underscore_ok[OF nu]
    by (simp add: py_int16_def sp sg strip_prefix16_hex[OF assms(1)] run rest flt hex_value_def)
qed

lemma py_split_no_sep: "sep \<notin> set s \<Longrightarrow> py_split sep s = [s]"
  by (induction s) auto

lemma py_split_at_sep: "sep \<notin> set s \<Longrightarrow> py_split sep (s @ sep # t) = s # py_split sep t"
  by (induction s) auto

lemma hex_no_dash: "list_all hex_digit s \<Longrightarrow> 45 \<notin> set s"
  by (auto simp: list_all_iff hex_digit_def)

lemma chars_of_hex:
  assumes "list_all hex_digit s" and "s \<noteq> []" and "hex_value s \<le> 0x10FFFF"
  shows "chars_of (s # rest) = (case chars_of rest of Inl e \<Rightarrow> Inl e | Inr chars \<Rightarrow> Inr ([hex_value s] # chars))"
  using assms(3) by (simp add: py_int16_hex[OF assms(1,2)] py_chr_def)

lemma decode_single:
  assumes "list_all hex_digit s" and "s \<noteq> []" and "hex_value s \<le> 0x10FFFF"
  shows "hex_to_emoji s = Inr [hex_value s]"
proof -
  have "45 \<notin> set s" using assms(1) by (rule hex_no_dash)
  then have "py_split 45 s = [s]" by (rule py_split_no_sep)
  then show ?thesis
    by (simp add: hex_to_emoji_def chars_of_hex[OF assms] del: chars_of.simps(2))
qed

lemma decode_pair:
  assumes "list_all hex_digit s" and "s \<noteq> []" and "hex_value s \<le> 0x10FFFF"
    and "list_all hex_digit t" and "t \<noteq> []" and "hex_value t \<le> 0x10FFFF"
  shows "hex_to_emoji (s @ str ''-'' @ t) = Inr [hex_value s, hex_value t]"
proof -
  have s: "45 \<notin> set s" using assms(1) by (rule hex_no_dash)
  have t: "45 \<notin> set t" using assms(4) by (rule hex_no_dash)
  have "py_split 45 (s @ 45 # t) = [s, t]"
    by (simp add: py_split_at_sep[OF s] py_split_no_sep[OF t])
  then show ?thesis
    by (simp add: hex_to_emoji_def str_def chars_of_hex[OF assms(1-3)] chars_of_hex[OF assms(4-6)]
        del: chars_of.simps(2))
qed

subsection \<open>Substrings and segments\<close>

lemma py_startswith_iff: "py_startswith s p = (\<exists>b. s = p @ b)"
proof
  assume "py_startswith s p"
  then have "s = p @ drop (length p) s"
    unfolding py_startswith_def by (metis append_take_drop_id)
  then show "\<exists>b. s = p @ b" ..
next
  assume "\<exists>b. s = p @ b"
  then show "py_startswith s p" by (auto simp: py_startswith_def)
qed

lemma py_in_iff: "py_in m u = (\<exists>a b. u = a @ m @ b)"
proof (induction u)
  case Nil
  show ?case by auto
next
  case (Cons c s)
  show ?case
  proof
    assume "py_in m (c # s)"
    then consider "py_startswith (c # s) m" | "py_in m s" by auto
    then show "\<exists>a b. c # s = a @ m @ b"
    proof cases
      case 1
      then obtain b where "c # s = m @ b" by (auto simp: py_startswith_iff)
      then have "c # s = [] @ m @ b" by simp
      then show ?thesis by blast
    next
      case 2
      then obtain a b where "s = a @ m @ b" using Cons.IH by auto
      then have "c # s = (c # a) @ m @ b" by simp
      then show ?thesis by blast
    qed
  next
    assume "\<exists>a b. c # s = a @ m @ b"
    then obtain a b where ab: "c # s = a @ m @ b" by auto
    show "py_in m (c # s)"
    proof (cases a)
      case Nil
      then have "py_startswith (c # s) m" using ab by (auto simp: py_startswith_iff)
      then show ?thesis by simp
    next
      case (Cons x a')
      then have "s = a' @ m @ b" using ab by simp
      then have "py_in m s" using Cons.IH by auto
      then show ?thesis by simp
    qed
  qed
qed

lemma py_split_Cons:
  "c \<noteq> sep \<Longrightarrow> py_split sep (c # s) = (c # hd (py_split sep s)) # tl (py_split sep s)"
  using py_split_nonempty[of sep s] by (cases "py_split sep s") auto

lemma hd_split_prefix: "\<exists>b. s = hd (py_split sep s) @ b"
proof (induction s)
  case Nil
  show ?case by simp
next
  case (Cons c s)
  show ?case
  proof (cases "c = sep")
    case True
    then show ?thesis by simp
  next
    case False
    from Cons.IH obtain b where "s = hd (py_split sep s) @ b" ..
    then have "c # s = hd (py_split sep (c # s)) @ b"
      using False by (simp add: py_split_Cons del: py_split.simps)
    then show ?thesis ..
  qed
qed

lemma segment_is_substring: "seg \<in> set (py_split sep u) \<Longrightarrow> py_in seg u"
proof (induction u arbitrary: seg)
  case Nil
  then show ?case by simp
next
  case (Cons c s)
  show ?case
  proof (cases "c = sep")
    case True
    with Cons.prems have "seg = [] \<or> seg \<in> set (py_split sep s)" by simp
    then show ?thesis
    proof
      assume "seg = []"
      then show ?thesis by (simp add: py_startswith_def)
    next
      assume "seg \<in> set (py_split sep s)"
      then show ?thesis using Cons.IH by simp
    qed
  next
    case False
    with Cons.prems have "seg = c # hd (py_split sep s) \<or> seg \<in> set (tl (py_split sep s))"
      by (simp add: py_split_Cons del: py_split.simps)
    then show ?thesis
    proof
      assume seg: "seg = c # hd (py_split sep s)"
      obtain b where "s = hd (py_split sep s) @ b" using hd_split_prefix by blast
      then have "c # s = seg @ b" using seg by simp
      then have "py_startswith (c # s) seg" unfolding py_startswith_iff ..
      then show ?thesis by simp
    next
      assume "seg \<in> set (tl (py_split sep s))"
      then have "seg \<in> set (py_split sep s)"
        using py_split_nonempty[of sep s] by (cases "py_split sep s") auto
      then show ?thesis using Cons.IH by simp
    qed
  qed
qed

lemma prefix_in_first_segment:
  "py_startswith s p \<Longrightarrow> sep \<notin> set p \<Longrightarrow> py_startswith (hd (py_split sep s)) p"
proof (induction s arbitrary: p)
  case Nil
  then show ?case by (simp add: py_startswith_def)
next
  case (Cons c s)
  show ?case
  proof (cases p)
    case Nil
    then show ?thesis by (simp add: py_startswith_def)
  next
    case (Cons x p')
    with Cons.prems have x: "x = c" "c \<noteq> sep" "sep \<notin> set p'" and "py_startswith s p'"
      by (auto simp: py_startswith_def)
    then have "py_startswith (hd (py_split sep s)) p'" using Cons.IH by blast
    then show ?thesis using x Cons
      by (simp add: py_split_Cons py_startswith_def del: py_split.simps)
  qed
qed

lemma substring_in_segment:
  "py_in m u \<Longrightarrow> sep \<notin> set m \<Longrightarrow> m \<noteq> [] \<Longrightarrow> \<exists>seg \<in> set (py_split sep u). py_in m seg"
proof (induction u)
  case Nil
  then show ?case by simp
next
  case (Cons c s)
  from Cons.prems(1) consider "py_startswith (c # s) m" | "py_in m s" by auto
  then show ?case
  proof cases
    case 1
    then have "py_startswith (hd (py_split sep (c # s))) m"
      using Cons.prems(2) by (rule prefix_in_first_segment)
    moreover have "hd (py_split sep (c # s)) \<in> set (py_split sep (c # s))"
      using py_split_nonempty by (intro hd_in_set)
    moreover have "py_in m w" if "py_startswith w m" for w
      using that Cons.prems(3) by (cases w) (auto simp: py_startswith_def)
    ultimately show ?thesis by blast
  next
    case 2
    then obtain seg where seg: "seg \<in> set (py_split sep s)" "py_in m seg"
      using Cons.IH Cons.prems by blast
    show ?thesis
    proof (cases "c = sep")
      case True
      then show ?thesis using seg by auto
    next
      case False
      obtain w ws where w: "py_split sep s = w # ws"
        using py_split_nonempty[of sep s] by (cases "py_split sep s") auto
      then have "seg = w \<or> seg \<in> set ws" using seg(1) by simp
      then show ?thesis
      proof
        assume "seg = w"
        then have "py_in m (c # w)" using seg(2) by simp
        then show ?thesis using False w by auto
      next
        assume "seg \<in> set ws"
        then show ?thesis using False w seg(2) by auto
      qed
    qed
  qed
qed

lemma has_skin_tone_modifier_iff:
  "has_skin_tone_modifier u = (\<exists>m \<in> set skin_tone_modifiers. \<exists>a b. u = a @ m @ b)"
  by (simp add: has_skin_tone_modifier_def list_ex_iff py_in_iff)

subsection \<open>Hexadecimal numerals\<close>

lemma upper_hex_is_hex: "upper_hex_digit c \<Longrightarrow> hex_digit c"
  by (auto simp: upper_hex_digit_def hex_digit_def)

lemma upper_hex_char:
  "upper_hex_digit c \<Longrightarrow>
     digit_value c < 16 \<and> c = (if digit_value c < 10 then 48 + digit_value c else 55 + digit_value c)"
  by (auto simp: upper_hex_digit_def digit_value_def)

lemma upper_hex_value:
  "upper_hex_digit c \<Longrightarrow> digit_value c = k \<Longrightarrow> c = (if k < 10 then 48 + k else 55 + k)"
  by (auto simp: upper_hex_digit_def digit_value_def)

lemma upper_hex_nonzero: "upper_hex_digit c \<Longrightarrow> c \<noteq> 48 \<Longrightarrow> 1 \<le> digit_value c"
  by (auto simp: upper_hex_digit_def digit_value_def)

lemma foldl_hex_shift:
  "foldl (\<lambda>v c. 16 * v + digit_value c) a s
     = a * 16 ^ length s + foldl (\<lambda>v c. 16 * v + digit_value c) 0 s"
proof (induction s arbitrary: a)
  case Nil
  show ?case by simp
next
  case (Cons x s)
  let ?f = "\<lambda>v c. 16 * v + digit_value c"
  have 1: "foldl ?f (16 * a + digit_value x) s = (16 * a + digit_value x) * 16 ^ length s + foldl ?f 0 s"
    by (rule Cons.IH)
  have 2: "foldl ?f (digit_value x) s = digit_value x * 16 ^ length s + foldl ?f 0 s"
    by (rule Cons.IH)
  have "foldl ?f a (x # s) = (16 * a + digit_value x) * 16 ^ length s + foldl ?f 0 s"
    using 1 by simp
  moreover have "foldl ?f 0 (x # s) = digit_value x * 16 ^ length s + foldl ?f 0 s"
    using 2 by simp
  moreover have "(16 * a + digit_value x) * 16 ^ length s = a * 16 ^ length (x # s) + digit_value x * 16 ^ length s"
    by (simp add: add_mult_distrib)
  ultimately show ?case by presburger
qed

lemma hex_value_Cons: "hex_value (c # s) = digit_value c * 16 ^ length s + hex_value s"
  using foldl_hex_shift[of "digit_value c" s] by (simp add: hex_value_def)

lemma hex_value_snoc: "hex_value (s @ [c]) = 16 * hex_value s + digit_value c"
  by (simp add: hex_value_def)

lemma modifier_values:
  "m \<in> set skin_tone_modifiers \<Longrightarrow>
     length m = 5 \<and> 0x1F3FB \<le> hex_value m \<and> hex_value m \<le> 0x1F3FF \<and> list_all upper_hex_digit m \<and> 45 \<notin> set m"
  by (auto simp: skin_tone_modifiers_def str_def hex_value_def digit_value_def upper_hex_digit_def)

lemma segment_with_modifier:
  assumes up: "upstream_segment seg" and m: "m \<in> set skin_tone_modifiers" and sub: "py_in m seg"
  shows "seg = m"
proof -
  from sub obtain a b where seg: "seg = a @ m @ b" by (auto simp: py_in_iff)
  note mv = modifier_values[OF m]
  have len: "length a + length b \<le> 1" using up mv seg by (simp add: upstream_segment_def)
  then consider "a = []" "b = []" | x where "a = [x]" "b = []" | y where "a = []" "b = [y]"
    by (cases a; cases b) auto
  then show ?thesis
  proof cases
    case 1
    then show ?thesis using seg by simp
  next
    case 2
    then have s: "seg = x # m" using seg by simp
    have "upper_hex_digit x" "x \<noteq> 48" using up mv by (simp_all add: s upstream_segment_def)
    then have "1 \<le> digit_value x" by (rule upper_hex_nonzero)
    then have "1 * 16 ^ 5 \<le> digit_value x * 16 ^ 5" by (rule mult_le_mono1)
    then have "0x100000 + 0x1F3FB \<le> hex_value seg" using mv by (simp add: s hex_value_Cons)
    then show ?thesis using up by (simp add: upstream_segment_def)
  next
    case 3
    then have s: "seg = m @ [y]" using seg by simp
    have "16 * 0x1F3FB \<le> hex_value seg" using mv unfolding s hex_value_snoc by linarith
    then show ?thesis using up by (simp add: upstream_segment_def)
  qed
qed

lemma upstream_py_int16: "upstream_segment seg \<Longrightarrow> py_int16 seg = Inr (int (hex_value seg))"
proof -
  assume up: "upstream_segment seg"
  then have "list_all hex_digit seg" "seg \<noteq> []"
    by (auto simp: upstream_segment_def list_all_iff upper_hex_is_hex)
  then show ?thesis by (rule py_int16_hex)
qed

lemma modifier_is_codepoint:
  "m \<in> set skin_tone_modifiers \<Longrightarrow> modifier_codepoint_segment m"
proof -
  assume m: "m \<in> set skin_tone_modifiers"
  note mv = modifier_values[OF m]
  then have "list_all hex_digit m" "m \<noteq> []" by (auto simp: list_all_iff upper_hex_is_hex)
  then have "py_int16 m = Inr (int (hex_value m))" by (rule py_int16_hex)
  then show ?thesis using mv by (simp add: modifier_codepoint_segment_def)
qed

lemma five_digits:
  fixes A B C D E :: nat
  assumes d: "A < 16" "B < 16" "C < 16" "D < 16" "E < 16"
    and lo: "127995 \<le> A * 65536 + B * 4096 + C * 256 + D * 16 + E"
    and hi: "A * 65536 + B * 4096 + C * 256 + D * 16 + E \<le> 127999"
  shows "A = 1 \<and> B = 15 \<and> C = 3 \<and> D = 15 \<and> 11 \<le> E"
proof -
  have A: "A = 1" using d lo hi by linarith
  have B: "B = 15" using d lo hi unfolding A by linarith
  have C: "C = 3" using d lo hi unfolding A B by linarith
  have D: "D = 15" using d lo hi unfolding A B C by linarith
  have E: "11 \<le> E" using lo unfolding A B C D by linarith
  show ?thesis using A B C D E by simp
qed

lemma codepoint_is_modifier:
  assumes up: "upstream_segment seg" and cp: "modifier_codepoint_segment seg"
  shows "seg \<in> set skin_tone_modifiers"
proof -
  have v: "127995 \<le> hex_value seg" "hex_value seg \<le> 127999"
    using cp by (simp_all add: modifier_codepoint_segment_def upstream_py_int16[OF up])
  have dig: "\<forall>c \<in> set seg. upper_hex_digit c" using up by (simp add: upstream_segment_def list_all_iff)
  have "length seg = 4 \<or> length seg = 5 \<or> length seg = 6"
    using up by (auto simp: upstream_segment_def)
  then consider a b c d where "seg = [a, b, c, d]"
    | a b c d e where "seg = [a, b, c, d, e]"
    | a b c d e f where "seg = [a, b, c, d, e, f]"
    by (auto simp: length_Suc_conv eval_nat_numeral)
  then show ?thesis
  proof cases
    case 1
    have "digit_value a < 16" "digit_value b < 16" "digit_value c < 16" "digit_value d < 16"
      using dig upper_hex_char by (simp_all add: 1)
    then have "hex_value seg < 65536" by (simp add: 1 hex_value_def)
    then show ?thesis using v by simp
  next
    case 2
    have ch: "upper_hex_digit a" "upper_hex_digit b" "upper_hex_digit c" "upper_hex_digit d" "upper_hex_digit e"
      using dig by (simp_all add: 2)
    have hv: "hex_value seg = digit_value a * 65536 + digit_value b * 4096 + digit_value c * 256
                 + digit_value d * 16 + digit_value e"
      by (simp add: 2 hex_value_def)
    have bounds: "digit_value a < 16" "digit_value b < 16" "digit_value c < 16"
        "digit_value d < 16" "digit_value e < 16"
      using ch[THEN upper_hex_char] by simp_all
    have vals: "digit_value a = 1 \<and> digit_value b = 15 \<and> digit_value c = 3 \<and> digit_value d = 15
            \<and> 11 \<le> digit_value e"
      using bounds v unfolding hv by (rule five_digits)
    have "a = 49" using upper_hex_value[OF ch(1), of 1] vals by simp
    moreover have "b = 70" using upper_hex_value[OF ch(2), of 15] vals by simp
    moreover have "c = 51" using upper_hex_value[OF ch(3), of 3] vals by simp
    moreover have "d = 70" using upper_hex_value[OF ch(4), of 15] vals by simp
    moreover have "e = 55 + digit_value e"
      using upper_hex_value[OF ch(5), of "digit_value e"] vals by simp
    then have "e = 66 \<or> e = 67 \<or> e = 68 \<or> e = 69 \<or> e = 70"
      using vals bounds(5) by linarith
    ultimately show ?thesis by (auto simp: 2 skin_tone_modifiers_def str_def)
  next
    case 3
    have "upper_hex_digit a" "a \<noteq> 48" using up by (simp_all add: 3 upstream_segment_def)
    then have "1 \<le> digit_value a" by (rule upper_hex_nonzero)
    then have "1 * 16 ^ 5 \<le> digit_value a * 16 ^ 5" by (rule mult_le_mono1)
    then have "1048576 \<le> hex_value seg" by (simp add: 3 hex_value_Cons)
    then show ?thesis using v by simp
  qed
qed

lemma upstream_criterion:
  assumes "list_all upstream_segment (py_split 45 u)"
  shows "has_skin_tone_modifier u = spec_has_modifier_codepoint u"
proof
  assume "has_skin_tone_modifier u"
  then obtain m where m: "m \<in> set skin_tone_modifiers" "py_in m u"
    by (auto simp: has_skin_tone_modifier_def list_ex_iff)
  have "45 \<notin> set m" "m \<noteq> []" using modifier_values[OF m(1)] by auto
  with m(2) obtain seg where seg: "seg \<in> set (py_split 45 u)" "py_in m seg"
    using substring_in_segment by blast
  then have "upstream_segment seg" using assms by (simp add: list_all_iff)
  then have "seg = m" using m(1) seg(2) by (rule segment_with_modifier)
  then have "modifier_codepoint_segment seg" using m(1) by (simp add: modifier_is_codepoint)
  then show "spec_has_modifier_codepoint u"
    using seg(1) by (auto simp: spec_has_modifier_codepoint_def list_ex_iff)
next
  assume "spec_has_modifier_codepoint u"
  then obtain seg where seg: "seg \<in> set (py_split 45 u)" "modifier_codepoint_segment seg"
    by (auto simp: spec_has_modifier_codepoint_def list_ex_iff)
  then have "upstream_segment seg" using assms by (simp add: list_all_iff)
  then have "seg \<in> set skin_tone_modifiers" using seg(2) by (rule codepoint_is_modifier)
  moreover have "py_in seg u" using seg(1) by (rule segment_is_substring)
  ultimately show "has_skin_tone_modifier u"
    by (auto simp: has_skin_tone_modifier_def list_ex_iff)
qed

declare hex_of.simps [simp del]

lemma hex_char_digit: "d < 16 \<Longrightarrow> upper_hex_digit (hex_char d) \<and> digit_value (hex_char d) = d"
  by (auto simp: hex_char_def upper_hex_digit_def digit_value_def)

lemma hex_of_digits: "list_all upper_hex_digit (hex_of n) \<and> hex_of n \<noteq> []"
proof (induction n rule: hex_of.induct)
  case (1 n)
  show ?case
  proof (cases "n < 16")
    case True
    then show ?thesis by (simp add: hex_of.simps[of n] hex_char_digit)
  next
    case False
    then show ?thesis using 1 by (simp add: hex_of.simps[of n] hex_char_digit)
  qed
qed

lemma hex_value_hex_of: "hex_value (hex_of n) = n"
proof (induction n rule: hex_of.induct)
  case (1 n)
  show ?case
  proof (cases "n < 16")
    case True
    then show ?thesis by (simp add: hex_of.simps[of n] hex_value_def hex_char_digit)
  next
    case False
    then have "hex_value (hex_of n) = 16 * hex_value (hex_of (n div 16)) + digit_value (hex_char (n mod 16))"
      by (simp add: hex_of.simps[of n] hex_value_snoc)
    also have "\<dots> = 16 * (n div 16) + n mod 16"
      using 1 False by (simp add: hex_char_digit)
    finally show ?thesis by simp
  qed
qed

lemma hex_of_hex: "list_all hex_digit (hex_of n)"
  using hex_of_digits[of n] by (auto simp: list_all_iff upper_hex_is_hex)

lemma decode_hex_of: "n \<le> 0x10FFFF \<Longrightarrow> hex_to_emoji (hex_of n) = Inr [n]"
  using decode_single[of "hex_of n"] hex_of_digits[of n] hex_of_hex[of n]
  by (simp add: hex_value_hex_of)

lemma decode_hex_of_pair:
  "m \<le> 0x10FFFF \<Longrightarrow> n \<le> 0x10FFFF \<Longrightarrow>
     hex_to_emoji (hex_of m @ str ''-'' @ hex_of n) = Inr [m, n]"
  using decode_pair[of "hex_of m" "hex_of n"] hex_of_digits[of m] hex_of_hex[of m]
    hex_of_digits[of n] hex_of_hex[of n]
  by (simp add: hex_value_hex_of)


section \<open>The claims\<close>

subsection \<open>C1: the end-to-end scenario\<close>

text \<open>
  Claim C1. The primary source holds the one record \<open>grinning\<close> (unified \<open>1F600\<close>, name
  \<open>GRINNING FACE\<close>, short names \<open>grinning\<close>, category \<open>Smileys & Emotion\<close>,
  sort order 1, rendered) and the keyword mapping gives its glyph the entries
  \<open>grinning_face\<close>, \<open>happy\<close>, \<open>joy\<close>. The pipeline returns exactly one record: the
  glyph U+1F600, the name \<open>grinning face\<close>, the keywords \<open>grinning\<close>, \<open>happy\<close>,
  \<open>joy\<close>, the same category and sort order 1.
\<close>

theorem end_to_end_scenario:
  "build_emoji_list [grinning] grinning_keywords = [grinning_out]"
  by (simp add: grinning_def grinning_keywords_def grinning_out_def eval_defs)

subsection \<open>C2: the keyword merger\<close>

text \<open>
  Claim C2. On ASCII keywords, where the model of \<open>lower\<close> is exact, the keyword loops
  build the list that the specification describes: the normalised short names, then the
  normalised entries of the keyword mapping except the first and except those starting
  with a colon or semicolon, every keyword kept at its first occurrence only; the string
  \<open>:D\<close> is in no merged list, and taking the entries \<open>:D\<close> away changes nothing. For
  the short name \<open>thumbs_up\<close> and the entries \<open>thumbs up sign\<close>, \<open>like\<close>,
  \<open>thumbs_up\<close>, \<open>approve\<close> the result is \<open>thumbs up\<close>, \<open>like\<close>, \<open>approve\<close>. A
  record that the pipeline emits carries this list for its own short names and the
  mapping entry of its glyph.
\<close>

theorem keyword_merger:
  "(list_all is_ascii short_names \<and> list_all is_ascii entries \<longrightarrow>
      merge_keywords short_names entries = spec_merge_keywords short_names entries
      \<and> str '':D'' \<notin> set (merge_keywords short_names entries))
   \<and> merge_keywords [str ''thumbs_up''] thumbs_up_entries
       = [str ''thumbs up'', str ''like'', str ''approve'']
   \<and> (list_all is_ascii short_names \<and> list_all is_ascii (first # others) \<longrightarrow>
        merge_keywords short_names (first # filter (\<lambda>kw. kw \<noteq> str '':D'') others)
          = merge_keywords short_names (first # others))
   \<and> (list_all ascii_unified (pre @ [r])
        \<and> list_all is_ascii (dict_get (e_short_names r) [])
        \<and> (\<forall>g. list_all is_ascii (dict_get (lib g) []))
        \<and> build_emoji_list (pre @ [r]) lib \<noteq> build_emoji_list pre lib \<longrightarrow>
        (\<exists>x. build_emoji_list (pre @ [r]) lib = build_emoji_list pre lib @ [x]
           \<and> keywords_list x
               = spec_merge_keywords (dict_get (e_short_names r) []) (dict_get (lib (emoji x)) [])))"
proof (intro conjI impI)
  show "merge_keywords short_names entries = spec_merge_keywords short_names entries"
    by (simp only: merge_keywords_eq spec_merge_keywords_eq)
  show "merge_keywords [str ''thumbs_up''] thumbs_up_entries
          = [str ''thumbs up'', str ''like'', str ''approve'']"
    by (simp add: thumbs_up_entries_def merge_keywords_def kw_clean_def py_lower_def
          py_replace_def lower_char_def py_startswith_def str_def)
  show "str '':D'' \<notin> set (merge_keywords short_names entries)"
    by (rule colon_D_not_merged)
  show "merge_keywords short_names (first # filter (\<lambda>kw. kw \<noteq> str '':D'') others)
          = merge_keywords short_names (first # others)"
    by (rule merge_without_colon_D)
next
  assume "list_all ascii_unified (pre @ [r])
        \<and> list_all is_ascii (dict_get (e_short_names r) [])
        \<and> (\<forall>g. list_all is_ascii (dict_get (lib g) []))
        \<and> build_emoji_list (pre @ [r]) lib \<noteq> build_emoji_list pre lib"
  then have "build_emoji_list (pre @ [r]) lib \<noteq> build_emoji_list pre lib" by simp
  from produced_entry[OF this] obtain g where
    "build_emoji_list (pre @ [r]) lib = build_emoji_list pre lib @
       [\<lparr>emoji = g, name = py_lower (dict_get (e_name r) []),
         keywords_list = merge_keywords (dict_get (e_short_names r) []) (dict_get (lib g) []),
         category = dict_get (e_category r) (str ''Other''),
         sortOrder = dict_get (e_sort_order r) 9999\<rparr>]"
    by blast
  then show "\<exists>x. build_emoji_list (pre @ [r]) lib = build_emoji_list pre lib @ [x]
           \<and> keywords_list x
               = spec_merge_keywords (dict_get (e_short_names r) []) (dict_get (lib (emoji x)) [])"
    by (simp add: merge_keywords_eq spec_merge_keywords_eq)
qed

theorem keyword_merger_witness:
  "list_all is_ascii [str ''Thumbs_Up''] \<and> list_all is_ascii face_entries
   \<and> list_all is_ascii (str ''grinning_face'' # [str '':D'', str ''Like'', str ''thumbs_up''])
   \<and> merge_keywords [str ''Thumbs_Up''] face_entries
       = spec_merge_keywords [str ''Thumbs_Up''] face_entries
   \<and> spec_merge_keywords [str ''Thumbs_Up''] face_entries = [str ''thumbs up'', str ''like'']
   \<and> str '':D'' \<notin> set (merge_keywords [str ''Thumbs_Up''] face_entries)
   \<and> merge_keywords [str ''Thumbs_Up'']
        (str ''grinning_face''
           # filter (\<lambda>kw. kw \<noteq> str '':D'') [str '':D'', str ''Like'', str ''thumbs_up''])
       = merge_keywords [str ''Thumbs_Up'']
           (str ''grinning_face'' # [str '':D'', str ''Like'', str ''thumbs_up''])
   \<and> list_all ascii_unified ([flag_us] @ [grinning])
   \<and> list_all is_ascii (dict_get (e_short_names grinning) [])
   \<and> (\<forall>g. list_all is_ascii (dict_get (grinning_keywords g) []))
   \<and> build_emoji_list ([flag_us] @ [grinning]) grinning_keywords
       \<noteq> build_emoji_list [flag_us] grinning_keywords
   \<and> (\<exists>x. build_emoji_list ([flag_us] @ [grinning]) grinning_keywords
             = build_emoji_list [flag_us] grinning_keywords @ [x]
        \<and> keywords_list x
            = spec_merge_keywords (dict_get (e_short_names grinning) [])
                (dict_get (grinning_keywords (emoji x)) []))"
proof -
  have a1: "list_all is_ascii [str ''Thumbs_Up'']"
    and a2: "list_all is_ascii face_entries"
    and a3: "list_all is_ascii (str ''grinning_face'' # [str '':D'', str ''Like'', str ''thumbs_up''])"
    by (simp_all add: is_ascii_def face_entries_def str_def)
  have v: "spec_merge_keywords [str ''Thumbs_Up''] face_entries = [str ''thumbs up'', str ''like'']"
    by (simp add: spec_merge_keywords_def face_entries_def emoticon_def kw_clean_def py_lower_def
          py_replace_def lower_char_def py_startswith_def str_def)
  have b1: "list_all ascii_unified ([flag_us] @ [grinning])"
    by (simp add: ascii_unified_def is_ascii_def flag_us_def grinning_def dict_get_def str_def)
  have b2: "list_all is_ascii (dict_get (e_short_names grinning) [])"
    by (simp add: is_ascii_def grinning_def dict_get_def str_def)
  have b3: "\<forall>g. list_all is_ascii (dict_get (grinning_keywords g) [])"
    by (simp add: is_ascii_def grinning_keywords_def dict_get_def str_def)
  have b4: "build_emoji_list ([flag_us] @ [grinning]) grinning_keywords
              \<noteq> build_emoji_list [flag_us] grinning_keywords"
    by (simp add: grinning_def flag_us_def grinning_keywords_def eval_defs)
  note t = keyword_merger[where short_names = "[str ''Thumbs_Up'']" and entries = face_entries
      and first = "str ''grinning_face''" and others = "[str '':D'', str ''Like'', str ''thumbs_up'']"
      and pre = "[flag_us]" and r = grinning and lib = grinning_keywords]
  have 1: "merge_keywords [str ''Thumbs_Up''] face_entries
             = spec_merge_keywords [str ''Thumbs_Up''] face_entries
           \<and> str '':D'' \<notin> set (merge_keywords [str ''Thumbs_Up''] face_entries)"
    using t[THEN conjunct1] conjI[OF a1 a2] by (rule mp)
  have 2: "merge_keywords [str ''Thumbs_Up'']
        (str ''grinning_face''
           # filter (\<lambda>kw. kw \<noteq> str '':D'') [str '':D'', str ''Like'', str ''thumbs_up''])
       = merge_keywords [str ''Thumbs_Up'']
           (str ''grinning_face'' # [str '':D'', str ''Like'', str ''thumbs_up''])"
    using t[THEN conjunct2, THEN conjunct2, THEN conjunct1] conjI[OF a1 a3] by (rule mp)
  have h: "list_all ascii_unified ([flag_us] @ [grinning])
        \<and> list_all is_ascii (dict_get (e_short_names grinning) [])
        \<and> (\<forall>g. list_all is_ascii (dict_get (grinning_keywords g) []))
        \<and> build_emoji_list ([flag_us] @ [grinning]) grinning_keywords
             \<noteq> build_emoji_list [flag_us] grinning_keywords"
    using b1 b2 b3 b4 by (intro conjI)
  have 3: "\<exists>x. build_emoji_list ([flag_us] @ [grinning]) grinning_keywords
             = build_emoji_list [flag_us] grinning_keywords @ [x]
        \<and> keywords_list x
            = spec_merge_keywords (dict_get (e_short_names grinning) [])
                (dict_get (grinning_keywords (emoji x)) [])"
    using t[THEN conjunct2, THEN conjunct2, THEN conjunct2] h by (rule mp)
  from a1 a2 a3 1[THEN conjunct1] v 1[THEN conjunct2] 2 b1 b2 b3 b4 3
  show ?thesis by (intro conjI)
qed

subsection \<open>C3: the skin-tone test\<close>

text \<open>
  Claim C3 says that a record is left out exactly when its codepoint sequence holds one
  of the five skin-tone modifiers U+1F3FB .. U+1F3FF. The script looks for the five
  upper-case strings \<open>1F3FB\<close> .. \<open>1F3FF\<close> in the \<open>unified\<close> string, while its decoder
  reads hexadecimal digits in either case. The rendered record \<open>1F44D-1f3fb\<close> has the
  modifier U+1F3FB as its second code point; the test of the script does not see it, and
  the pipeline emits the record with the modifier in its glyph.
\<close>

theorem skin_tone_lower_case_emitted:
  "spec_has_modifier_codepoint (str ''1F44D-1f3fb'')
   \<and> \<not> has_skin_tone_modifier (str ''1F44D-1f3fb'')
   \<and> e_has_img_apple thumb_light = Some True
   \<and> e_unified thumb_light = Some (str ''1F44D-1f3fb'')
   \<and> hex_to_emoji (str ''1F44D-1f3fb'') = Inr [0x1F44D, 0x1F3FB]
   \<and> build_emoji_list [thumb_light] Map.empty = [thumb_light_out]"
proof (intro conjI)
  show "spec_has_modifier_codepoint (str ''1F44D-1f3fb'')"
    by (simp add: spec_has_modifier_codepoint_def modifier_codepoint_segment_def eval_defs)
  show "\<not> has_skin_tone_modifier (str ''1F44D-1f3fb'')"
    by (simp add: eval_defs)
  show "e_has_img_apple thumb_light = Some True"
    and "e_unified thumb_light = Some (str ''1F44D-1f3fb'')"
    by (simp_all add: thumb_light_def bare_def)
  show "hex_to_emoji (str ''1F44D-1f3fb'') = Inr [0x1F44D, 0x1F3FB]"
    by (simp add: eval_defs)
  show "build_emoji_list [thumb_light] Map.empty = [thumb_light_out]"
    by (simp add: thumb_light_def thumb_light_out_def bare_def eval_defs)
qed

subsection \<open>C4: order preservation\<close>

text \<open>
  Claim C4 says that the glyphs of the output are the glyphs of the eligible input records
  (rendered, without a skin-tone modifier, decodable) in the order of the input, each at
  its first occurrence. The pipeline keeps the order of its input and sorts nothing
  (\<open>build_glyphs\<close>, \<open>order_where_tests_agree\<close>), but it restricts the input by its own
  skin-tone test: between two emitted records, the record \<open>1F44D-1f3fb\<close> with its
  lower-case modifier is emitted too, where the claim leaves it out.
\<close>

theorem order_with_lower_case_modifier:
  "map emoji (build_emoji_list [flag_us, thumb_light, grinning] grinning_keywords)
     = [glyph_flag_us, [0x1F44D, 0x1F3FB], glyph_grinning]
   \<and> spec_glyph_order [flag_us, thumb_light, grinning] = [glyph_flag_us, glyph_grinning]"
proof (intro conjI)
  show "map emoji (build_emoji_list [flag_us, thumb_light, grinning] grinning_keywords)
     = [glyph_flag_us, [0x1F44D, 0x1F3FB], glyph_grinning]"
    by (simp add: flag_us_def thumb_light_def grinning_def bare_def grinning_keywords_def
          glyph_flag_us_def glyph_grinning_def eval_defs)
  show "spec_glyph_order [flag_us, thumb_light, grinning] = [glyph_flag_us, glyph_grinning]"
    by (simp add: spec_glyph_order_def spec_eligible_glyph_def List.map_filter_simps
          spec_has_modifier_codepoint_def modifier_codepoint_segment_def
          flag_us_def thumb_light_def grinning_def bare_def
          glyph_flag_us_def glyph_grinning_def eval_defs)
qed

subsection \<open>C5: unique glyphs\<close>

text \<open>
  Claim C5. The glyphs of the output are pairwise distinct, and the first occurrence
  wins. The glyph of every record that reaches the decoder and decodes is in the output.
  The first record that decodes to a glyph is the one that is emitted: the output up to
  it grows by a record with this glyph and with the category and sort order of this
  record. A later record that decodes to the same glyph is dropped: the output is the
  one of the input without it.
\<close>

theorem glyphs_distinct:
  "distinct (map emoji (build_emoji_list raw_data lib))
   \<and> (eligible_glyph r1 = Some g \<longrightarrow>
        g \<in> set (map emoji (build_emoji_list (pre @ r1 # post) lib)))
   \<and> (eligible_glyph r1 = Some g \<and> list_all ascii_unified pre
        \<and> (\<forall>p \<in> set pre. eligible_glyph p \<noteq> Some g) \<longrightarrow>
        (\<exists>x rest. build_emoji_list (pre @ r1 # post) lib = build_emoji_list pre lib @ x # rest
           \<and> emoji x = g
           \<and> category x = dict_get (e_category r1) (str ''Other'')
           \<and> sortOrder x = dict_get (e_sort_order r1) 9999))
   \<and> (eligible_glyph r1 = Some g \<longrightarrow> eligible_glyph r2 = Some g \<longrightarrow>
        build_emoji_list (pre @ r1 # mid @ r2 # post) lib
          = build_emoji_list (pre @ r1 # mid @ post) lib)"
proof (intro conjI impI)
  show "distinct (map emoji (build_emoji_list raw_data lib))"
    by (simp add: build_glyphs distinct_dedup)
next
  assume "eligible_glyph r1 = Some g"
  then show "g \<in> set (map emoji (build_emoji_list (pre @ r1 # post) lib))"
    by (rule glyph_emitted)
next
  assume "eligible_glyph r1 = Some g \<and> list_all ascii_unified pre
        \<and> (\<forall>p \<in> set pre. eligible_glyph p \<noteq> Some g)"
  then have "eligible_glyph r1 = Some g" and "\<forall>p \<in> set pre. eligible_glyph p \<noteq> Some g"
    by simp_all
  then show "\<exists>x rest. build_emoji_list (pre @ r1 # post) lib = build_emoji_list pre lib @ x # rest
           \<and> emoji x = g
           \<and> category x = dict_get (e_category r1) (str ''Other'')
           \<and> sortOrder x = dict_get (e_sort_order r1) 9999"
    by (rule first_emitted)
next
  assume "eligible_glyph r1 = Some g" and "eligible_glyph r2 = Some g"
  then show "build_emoji_list (pre @ r1 # mid @ r2 # post) lib
          = build_emoji_list (pre @ r1 # mid @ post) lib"
    by (rule dup_build)
qed

theorem glyphs_distinct_witness:
  "eligible_glyph grinning = Some glyph_grinning
   \<and> eligible_glyph (bare (str ''0x1f600'')) = Some glyph_grinning
   \<and> list_all ascii_unified [flag_us]
   \<and> eligible_glyph flag_us \<noteq> Some glyph_grinning
   \<and> glyph_grinning \<in> set (map emoji
        (build_emoji_list ([flag_us] @ grinning # [bare (str ''0x1f600'')]) grinning_keywords))
   \<and> (\<exists>x rest. build_emoji_list ([flag_us] @ grinning # [bare (str ''0x1f600'')]) grinning_keywords
                  = build_emoji_list [flag_us] grinning_keywords @ x # rest
        \<and> emoji x = glyph_grinning
        \<and> category x = dict_get (e_category grinning) (str ''Other'')
        \<and> sortOrder x = dict_get (e_sort_order grinning) 9999)
   \<and> build_emoji_list ([] @ grinning # [flag_us] @ bare (str ''0x1f600'') # []) grinning_keywords
       = build_emoji_list ([] @ grinning # [flag_us] @ []) grinning_keywords"
proof -
  have h1: "eligible_glyph grinning = Some glyph_grinning"
    by (simp add: eligible_glyph_def grinning_def glyph_grinning_def eval_defs)
  have h2: "eligible_glyph (bare (str ''0x1f600'')) = Some glyph_grinning"
    by (simp add: eligible_glyph_def bare_def glyph_grinning_def eval_defs)
  have h3: "list_all ascii_unified [flag_us]"
    by (simp add: ascii_unified_def is_ascii_def flag_us_def dict_get_def str_def)
  have h4: "eligible_glyph flag_us \<noteq> Some glyph_grinning"
    by (simp add: eligible_glyph_def flag_us_def glyph_grinning_def eval_defs)
  then have h5: "\<forall>p \<in> set [flag_us]. eligible_glyph p \<noteq> Some glyph_grinning" by simp
  have h6: "eligible_glyph grinning = Some glyph_grinning \<and> list_all ascii_unified [flag_us]
        \<and> (\<forall>p \<in> set [flag_us]. eligible_glyph p \<noteq> Some glyph_grinning)"
    using h1 h3 h5 by (intro conjI)
  note t = glyphs_distinct[where ?r1.0 = grinning and g = glyph_grinning and pre = "[flag_us]"
      and post = "[bare (str ''0x1f600'')]" and lib = grinning_keywords]
  note u = glyphs_distinct[where ?r1.0 = grinning and ?r2.0 = "bare (str ''0x1f600'')"
      and g = glyph_grinning and pre = "[]" and mid = "[flag_us]" and post = "[]"
      and lib = grinning_keywords]
  have 1: "glyph_grinning \<in> set (map emoji
        (build_emoji_list ([flag_us] @ grinning # [bare (str ''0x1f600'')]) grinning_keywords))"
    using t[THEN conjunct2, THEN conjunct1] h1 by (rule mp)
  have 2: "\<exists>x rest. build_emoji_list ([flag_us] @ grinning # [bare (str ''0x1f600'')]) grinning_keywords
                  = build_emoji_list [flag_us] grinning_keywords @ x # rest
        \<and> emoji x = glyph_grinning
        \<and> category x = dict_get (e_category grinning) (str ''Other'')
        \<and> sortOrder x = dict_get (e_sort_order grinning) 9999"
    using t[THEN conjunct2, THEN conjunct2, THEN conjunct1] h6 by (rule mp)
  have 3: "build_emoji_list ([] @ grinning # [flag_us] @ bare (str ''0x1f600'') # []) grinning_keywords
       = build_emoji_list ([] @ grinning # [flag_us] @ []) grinning_keywords"
    using u[THEN conjunct2, THEN conjunct2, THEN conjunct2] h1 h2 by simp
  from h1 h2 h3 h4 1 2 3 show ?thesis by (intro conjI)
qed

subsection \<open>C6: decode failures\<close>

text \<open>
  Claim C6. For an ASCII \<open>unified\<close> string, where the model of \<open>int\<close> is exact, decoding
  fails exactly when some dash-separated segment is no hexadecimal integer or denotes a
  number outside the code-point range. The failure is caught in the loop: the pipeline is
  a total function that returns its list for every input, and a record whose \<open>unified\<close>
  string fails to decode in this way is skipped, so that the output is the one of the
  input without this record.
\<close>

theorem decode_failure_skipped:
  "(is_ascii u \<longrightarrow>
      (isl (hex_to_emoji u) \<longleftrightarrow> (\<exists>seg \<in> set (py_split 45 u). bad_segment seg)))
   \<and> (ascii_unified r
        \<and> (\<exists>seg \<in> set (py_split 45 (dict_get (e_unified r) [])). bad_segment seg) \<longrightarrow>
        build_emoji_list (pre @ r # post) lib = build_emoji_list (pre @ post) lib)"
proof (intro conjI impI)
  show "isl (hex_to_emoji u) \<longleftrightarrow> (\<exists>seg \<in> set (py_split 45 u). bad_segment seg)"
    by (rule hex_to_emoji_fails)
next
  assume "ascii_unified r
        \<and> (\<exists>seg \<in> set (py_split 45 (dict_get (e_unified r) [])). bad_segment seg)"
  then have "\<exists>seg \<in> set (py_split 45 (dict_get (e_unified r) [])). bad_segment seg" by simp
  then have "isl (hex_to_emoji (dict_get (e_unified r) []))"
    by (simp only: hex_to_emoji_fails)
  then have "eligible_glyph r = None" by (rule undecodable_not_eligible)
  then show "build_emoji_list (pre @ r # post) lib = build_emoji_list (pre @ post) lib"
    by (rule skip_build)
qed

theorem decode_failure_skipped_witness:
  "is_ascii (str ''1F600-ZZZZ'') \<and> ascii_unified (bare (str ''1F600-ZZZZ''))
   \<and> (\<exists>seg \<in> set (py_split 45 (dict_get (e_unified (bare (str ''1F600-ZZZZ''))) [])). bad_segment seg)
   \<and> hex_to_emoji (str ''1F600-ZZZZ'') = Inl ValueError
   \<and> isl (hex_to_emoji (str ''1F600-ZZZZ''))
   \<and> build_emoji_list ([grinning] @ bare (str ''1F600-ZZZZ'') # [flag_us]) grinning_keywords
       = build_emoji_list ([grinning] @ [flag_us]) grinning_keywords
   \<and> ascii_unified (bare (str ''80000000''))
   \<and> (\<exists>seg \<in> set (py_split 45 (dict_get (e_unified (bare (str ''80000000''))) [])). bad_segment seg)
   \<and> hex_to_emoji (str ''80000000'') = Inl OverflowError
   \<and> build_emoji_list ([grinning] @ bare (str ''80000000'') # [flag_us]) grinning_keywords
       = build_emoji_list ([grinning] @ [flag_us]) grinning_keywords"
proof -
  have a: "is_ascii (str ''1F600-ZZZZ'')"
    and a1: "ascii_unified (bare (str ''1F600-ZZZZ''))"
    and a2: "ascii_unified (bare (str ''80000000''))"
    by (simp_all add: ascii_unified_def is_ascii_def bare_def dict_get_def str_def)
  have h: "\<exists>seg \<in> set (py_split 45 (dict_get (e_unified (bare (str ''1F600-ZZZZ''))) [])).
             bad_segment seg"
    by (simp add: bare_def bad_segment_def eval_defs)
  have k: "\<exists>seg \<in> set (py_split 45 (dict_get (e_unified (bare (str ''80000000''))) [])).
             bad_segment seg"
    by (simp add: bare_def bad_segment_def eval_defs)
  have e: "hex_to_emoji (str ''1F600-ZZZZ'') = Inl ValueError"
    and f: "hex_to_emoji (str ''80000000'') = Inl OverflowError"
    by (simp_all add: eval_defs)
  note t = decode_failure_skipped[where u = "str ''1F600-ZZZZ''" and r = "bare (str ''1F600-ZZZZ'')"
      and pre = "[grinning]" and post = "[flag_us]" and lib = grinning_keywords]
  note u = decode_failure_skipped[where r = "bare (str ''80000000'')" and pre = "[grinning]"
      and post = "[flag_us]" and lib = grinning_keywords]
  have 0: "isl (hex_to_emoji (str ''1F600-ZZZZ''))"
    using e by simp
  have 1: "build_emoji_list ([grinning] @ bare (str ''1F600-ZZZZ'') # [flag_us]) grinning_keywords
       = build_emoji_list ([grinning] @ [flag_us]) grinning_keywords"
    using t[THEN conjunct2] conjI[OF a1 h] by (rule mp)
  have 2: "build_emoji_list ([grinning] @ bare (str ''80000000'') # [flag_us]) grinning_keywords
       = build_emoji_list ([grinning] @ [flag_us]) grinning_keywords"
    using u[THEN conjunct2] conjI[OF a2 k] by (rule mp)
  from a a1 h e 0 1 a2 k f 2 show ?thesis by (intro conjI)
qed

subsection \<open>C7: the decoder\<close>

text \<open>
  Claim C7. For a non-empty string of hexadecimal digits that denotes a code point of at
  most 10FFFF, \<open>hex_to_emoji\<close> returns the one-character string with that code point; for
  two such strings joined by a dash it returns the two characters in order. Every code
  point \<open>n\<close> of the range is reached: its hexadecimal numeral decodes to \<open>n\<close>.
\<close>

theorem decode_correct:
  "(list_all hex_digit s \<and> s \<noteq> [] \<and> hex_value s \<le> 0x10FFFF \<longrightarrow>
      hex_to_emoji s = Inr [hex_value s])
   \<and> (list_all hex_digit s \<and> s \<noteq> [] \<and> hex_value s \<le> 0x10FFFF
        \<and> list_all hex_digit t \<and> t \<noteq> [] \<and> hex_value t \<le> 0x10FFFF \<longrightarrow>
      hex_to_emoji (s @ str ''-'' @ t) = Inr [hex_value s, hex_value t])
   \<and> (n \<le> 0x10FFFF \<longrightarrow> hex_to_emoji (hex_of n) = Inr [n])
   \<and> (k \<le> 0x10FFFF \<and> n \<le> 0x10FFFF \<longrightarrow>
      hex_to_emoji (hex_of k @ str ''-'' @ hex_of n) = Inr [k, n])"
  by (simp add: decode_single decode_pair decode_hex_of decode_hex_of_pair)

theorem decode_correct_witness:
  "list_all hex_digit (str ''1F1FA'') \<and> str ''1F1FA'' \<noteq> [] \<and> hex_value (str ''1F1FA'') \<le> 0x10FFFF
   \<and> list_all hex_digit (str ''1f1f8'') \<and> str ''1f1f8'' \<noteq> [] \<and> hex_value (str ''1f1f8'') \<le> 0x10FFFF
   \<and> hex_value (str ''1F1FA'') = 0x1F1FA \<and> hex_value (str ''1f1f8'') = 0x1F1F8
   \<and> hex_to_emoji (str ''1F1FA'') = Inr [hex_value (str ''1F1FA'')]
   \<and> hex_to_emoji (str ''1F1FA'' @ str ''-'' @ str ''1f1f8'')
       = Inr [hex_value (str ''1F1FA''), hex_value (str ''1f1f8'')]
   \<and> (0x1F600::nat) \<le> 0x10FFFF \<and> hex_to_emoji (hex_of 0x1F600) = Inr [0x1F600]
   \<and> hex_to_emoji (hex_of 0x1F1FA @ str ''-'' @ hex_of 0x1F1F8) = Inr [0x1F1FA, 0x1F1F8]"
proof -
  have a: "list_all hex_digit (str ''1F1FA'') \<and> str ''1F1FA'' \<noteq> []
              \<and> hex_value (str ''1F1FA'') \<le> 0x10FFFF"
    and av: "hex_value (str ''1F1FA'') = 0x1F1FA"
    by (simp_all add: str_def hex_digit_def hex_value_def digit_value_def)
  have b: "list_all hex_digit (str ''1f1f8'') \<and> str ''1f1f8'' \<noteq> []
              \<and> hex_value (str ''1f1f8'') \<le> 0x10FFFF"
    and bv: "hex_value (str ''1f1f8'') = 0x1F1F8"
    by (simp_all add: str_def hex_digit_def hex_value_def digit_value_def)
  have n: "(0x1F600::nat) \<le> 0x10FFFF" and kn: "(0x1F1FA::nat) \<le> 0x10FFFF \<and> (0x1F1F8::nat) \<le> 0x10FFFF"
    by simp_all
  note t = decode_correct[where s = "str ''1F1FA''" and t = "str ''1f1f8''" and n = "0x1F600"
      and k = "0x1F600"]
  note u = decode_correct[where s = "str ''1F1FA''" and t = "str ''1f1f8''" and n = "0x1F1F8"
      and k = "0x1F1FA"]
  have ab: "list_all hex_digit (str ''1F1FA'') \<and> str ''1F1FA'' \<noteq> []
              \<and> hex_value (str ''1F1FA'') \<le> 0x10FFFF
              \<and> list_all hex_digit (str ''1f1f8'') \<and> str ''1f1f8'' \<noteq> []
              \<and> hex_value (str ''1f1f8'') \<le> 0x10FFFF"
    using a b by (simp only: simp_thms)
  have 1: "hex_to_emoji (str ''1F1FA'') = Inr [hex_value (str ''1F1FA'')]"
    using t[THEN conjunct1] a by (rule mp)
  have 2: "hex_to_emoji (str ''1F1FA'' @ str ''-'' @ str ''1f1f8'')
       = Inr [hex_value (str ''1F1FA''), hex_value (str ''1f1f8'')]"
    using t[THEN conjunct2, THEN conjunct1] ab by (rule mp)
  have 3: "hex_to_emoji (hex_of 0x1F600) = Inr [0x1F600]"
    using t[THEN conjunct2, THEN conjunct2, THEN conjunct1] n by (rule mp)
  have 4: "hex_to_emoji (hex_of 0x1F1FA @ str ''-'' @ hex_of 0x1F1F8) = Inr [0x1F1FA, 0x1F1F8]"
    using u[THEN conjunct2, THEN conjunct2, THEN conjunct2] kn by (rule mp)
  show ?thesis
    by (intro conjI) (simp_all only: a av b bv n 1 2 3 4 simp_thms)
qed

subsection \<open>C8: the rendering flag\<close>

text \<open>
  Claim C8. A record whose \<open>has_img_apple\<close> flag is false produces no output record,
  whatever its other fields hold: the output is the one of the input without it.
\<close>

theorem unrendered_skipped:
  "e_has_img_apple r = Some False \<Longrightarrow>
     build_emoji_list (pre @ r # post) lib = build_emoji_list (pre @ post) lib"
proof -
  assume "e_has_img_apple r = Some False"
  then have "eligible_glyph r = None" by (simp add: eligible_glyph_def dict_get_def)
  then show ?thesis by (rule skip_build)
qed

theorem unrendered_skipped_witness:
  "e_has_img_apple (grinning\<lparr>e_has_img_apple := Some False\<rparr>) = Some False
   \<and> build_emoji_list ([flag_us] @ grinning\<lparr>e_has_img_apple := Some False\<rparr> # [grinning])
         grinning_keywords
       = build_emoji_list ([flag_us] @ [grinning]) grinning_keywords"
proof -
  have h: "e_has_img_apple (grinning\<lparr>e_has_img_apple := Some False\<rparr>) = Some False"
    by simp
  from unrendered_skipped[OF h, of "[flag_us]" "[grinning]" grinning_keywords] h
  show ?thesis by blast
qed

subsection \<open>C9: defaults\<close>

text \<open>
  Claim C9. When a record produces an output record, that is, the output grows while the
  record is processed, exactly one record is appended. Its category is the category of
  the source record, or \<open>Other\<close> when the source record has none; its sort order is the
  one of the source record, or 9999 when the source record has none.
\<close>

theorem defaults_applied:
  "build_emoji_list (pre @ [r]) lib \<noteq> build_emoji_list pre lib \<Longrightarrow>
     \<exists>x. build_emoji_list (pre @ [r]) lib = build_emoji_list pre lib @ [x]
       \<and> category x = (case e_category r of None \<Rightarrow> str ''Other'' | Some c \<Rightarrow> c)
       \<and> sortOrder x = (case e_sort_order r of None \<Rightarrow> 9999 | Some n \<Rightarrow> n)"
proof -
  assume "build_emoji_list (pre @ [r]) lib \<noteq> build_emoji_list pre lib"
  from produced_entry[OF this] obtain g where
    "build_emoji_list (pre @ [r]) lib = build_emoji_list pre lib @
       [\<lparr>emoji = g, name = py_lower (dict_get (e_name r) []),
         keywords_list = merge_keywords (dict_get (e_short_names r) []) (dict_get (lib g) []),
         category = dict_get (e_category r) (str ''Other''),
         sortOrder = dict_get (e_sort_order r) 9999\<rparr>]"
    by blast
  then show ?thesis by (simp add: dict_get_def)
qed

theorem defaults_applied_witness:
  "build_emoji_list ([grinning] @ [bare (str ''1F1FA-1F1F8'')]) grinning_keywords
     \<noteq> build_emoji_list [grinning] grinning_keywords
   \<and> (\<exists>x. build_emoji_list ([grinning] @ [bare (str ''1F1FA-1F1F8'')]) grinning_keywords
             = build_emoji_list [grinning] grinning_keywords @ [x]
        \<and> category x = str ''Other'' \<and> sortOrder x = 9999)"
proof -
  have h: "build_emoji_list ([grinning] @ [bare (str ''1F1FA-1F1F8'')]) grinning_keywords
             \<noteq> build_emoji_list [grinning] grinning_keywords"
    by (simp add: grinning_def grinning_keywords_def bare_def eval_defs)
  have "e_category (bare (str ''1F1FA-1F1F8'')) = None"
    and "e_sort_order (bare (str ''1F1FA-1F1F8'')) = None"
    by (simp_all add: bare_def)
  with defaults_applied[OF h] h show ?thesis by simp
qed

subsection \<open>C10: missing fields\<close>

text \<open>
  Claim C10. A record without the \<open>has_img_apple\<close> field is treated as not rendered and
  is skipped. A record without the \<open>unified\<close> field is skipped as well: its \<open>unified\<close>
  string defaults to the empty string, which fails to decode. Every glyph in the output
  is a non-empty string.
\<close>

theorem missing_fields_skipped:
  "(e_has_img_apple r = None \<longrightarrow>
      build_emoji_list (pre @ r # post) lib = build_emoji_list (pre @ post) lib)
   \<and> (e_unified r = None \<longrightarrow>
        hex_to_emoji (dict_get (e_unified r) []) = Inl ValueError
        \<and> build_emoji_list (pre @ r # post) lib = build_emoji_list (pre @ post) lib)
   \<and> (\<forall>x \<in> set (build_emoji_list raw_data lib). emoji x \<noteq> [])"
proof (intro conjI impI ballI)
  assume "e_has_img_apple r = None"
  then have "eligible_glyph r = None" by (simp add: eligible_glyph_def dict_get_def)
  then show "build_emoji_list (pre @ r # post) lib = build_emoji_list (pre @ post) lib"
    by (rule skip_build)
next
  assume "e_unified r = None"
  then show "hex_to_emoji (dict_get (e_unified r) []) = Inl ValueError"
    by (simp add: eval_defs)
next
  assume "e_unified r = None"
  then have "isl (hex_to_emoji (dict_get (e_unified r) []))" by (simp add: eval_defs)
  then have "eligible_glyph r = None" by (rule undecodable_not_eligible)
  then show "build_emoji_list (pre @ r # post) lib = build_emoji_list (pre @ post) lib"
    by (rule skip_build)
next
  fix x assume "x \<in> set (build_emoji_list raw_data lib)"
  then show "emoji x \<noteq> []" by (rule build_glyph_nonempty)
qed

theorem missing_fields_skipped_witness:
  "e_has_img_apple (grinning\<lparr>e_has_img_apple := None\<rparr>) = None
   \<and> build_emoji_list ([flag_us] @ grinning\<lparr>e_has_img_apple := None\<rparr> # [grinning]) grinning_keywords
       = build_emoji_list ([flag_us] @ [grinning]) grinning_keywords
   \<and> e_unified (grinning\<lparr>e_unified := None\<rparr>) = None
   \<and> build_emoji_list ([flag_us] @ grinning\<lparr>e_unified := None\<rparr> # [grinning]) grinning_keywords
       = build_emoji_list ([flag_us] @ [grinning]) grinning_keywords
   \<and> build_emoji_list [flag_us, grinning] grinning_keywords \<noteq> []
   \<and> emoji (hd (build_emoji_list [flag_us, grinning] grinning_keywords)) \<noteq> []"
proof -
  have h1: "e_has_img_apple (grinning\<lparr>e_has_img_apple := None\<rparr>) = None" by simp
  have h2: "e_unified (grinning\<lparr>e_unified := None\<rparr>) = None" by simp
  have h3: "build_emoji_list [flag_us, grinning] grinning_keywords \<noteq> []"
    by (simp add: grinning_def flag_us_def grinning_keywords_def eval_defs)
  note t = missing_fields_skipped[where r = "grinning\<lparr>e_has_img_apple := None\<rparr>"
      and pre = "[flag_us]" and post = "[grinning]" and lib = grinning_keywords
      and raw_data = "[flag_us, grinning]"]
  note u = missing_fields_skipped[where r = "grinning\<lparr>e_unified := None\<rparr>"
      and pre = "[flag_us]" and post = "[grinning]" and lib = grinning_keywords
      and raw_data = "[flag_us, grinning]"]
  have 1: "build_emoji_list ([flag_us] @ grinning\<lparr>e_has_img_apple := None\<rparr> # [grinning])
             grinning_keywords
           = build_emoji_list ([flag_us] @ [grinning]) grinning_keywords"
    using t[THEN conjunct1] h1 by (rule mp)
  have 2: "build_emoji_list ([flag_us] @ grinning\<lparr>e_unified := None\<rparr> # [grinning])
             grinning_keywords
           = build_emoji_list ([flag_us] @ [grinning]) grinning_keywords"
    using u[THEN conjunct2, THEN conjunct1] h2 by simp
  have "hd (build_emoji_list [flag_us, grinning] grinning_keywords)
          \<in> set (build_emoji_list [flag_us, grinning] grinning_keywords)"
    using h3 by (rule hd_in_set)
  with t[THEN conjunct2, THEN conjunct2]
  have 3: "emoji (hd (build_emoji_list [flag_us, grinning] grinning_keywords)) \<noteq> []"
    by (rule bspec)
  from h1 1 h2 2 h3 3 show ?thesis by (intro conjI)
qed

end
